theory Spec2Isabelle
  imports Main "HOL-Library.Word" "HOL-Library.Sublist"
begin

section \<open>Data model\<close>

type_synonym uint32 = "32 word"

text \<open>The runtime-spec type \<open>specs.LinuxIDMapping\<close>: three \<open>uint32\<close> fields.\<close>

record LinuxIDMapping =
  ContainerID :: uint32
  HostID :: uint32
  Size :: uint32

text \<open>
  Errors are values. Failures of collaborators outside the launcher package are opaque
  (\<open>External\<close>); the launcher's own \<open>fmt.Errorf\<close> calls each have a constructor, with
  the wrapped error where the source uses \<open>%w\<close>.
\<close>

datatype error =
    External string
  | RangeSizeTooSmall uint32
  | EnvFileRead string error
  | EnvFileProcess string error
  | GettingProcessArgs error

section \<open>ID-mapping reversal (process\_linux.go)\<close>

text \<open>The two sub-ID files passed to \<open>fakeroot.GetIDRange\<close>.\<close>

datatype subid_file = SubUIDFile | SubGIDFile

text \<open>
  \<open>reverseMapByRange\<close>: the UID and GID tables are built by two copies of the same
  code. All arithmetic is on \<open>uint32\<close> and wraps.
\<close>

definition reverseMapByRange ::
  "uint32 \<Rightarrow> uint32 \<Rightarrow> LinuxIDMapping \<Rightarrow> LinuxIDMapping
     \<Rightarrow> LinuxIDMapping list \<times> LinuxIDMapping list" where
  "reverseMapByRange targetUID targetGID subuidRange subgidRange =
     (let uidMap =
            (if targetUID < Size subuidRange then
               [\<lparr>ContainerID = 0, HostID = 1, Size = targetUID\<rparr>,
                \<lparr>ContainerID = targetUID, HostID = 0, Size = 1\<rparr>,
                \<lparr>ContainerID = targetUID + 1, HostID = targetUID + 1,
                 Size = Size subuidRange - targetUID\<rparr>]
             else
               [\<lparr>ContainerID = 0, HostID = 1, Size = Size subuidRange\<rparr>,
                \<lparr>ContainerID = targetUID, HostID = 0, Size = 1\<rparr>]);
          gidMap =
            (if targetGID < Size subgidRange then
               [\<lparr>ContainerID = 0, HostID = 1, Size = targetGID\<rparr>,
                \<lparr>ContainerID = targetGID, HostID = 0, Size = 1\<rparr>,
                \<lparr>ContainerID = targetGID + 1, HostID = targetGID + 1,
                 Size = Size subgidRange - targetGID\<rparr>]
             else
               [\<lparr>ContainerID = 0, HostID = 1, Size = Size subgidRange\<rparr>,
                \<lparr>ContainerID = targetGID, HostID = 0, Size = 1\<rparr>])
      in (uidMap, gidMap))"

text \<open>
  \<open>getReverseUserMaps\<close>. The lookup \<open>fakeroot.GetIDRange\<close> reads the host's sub-ID
  files; it is the parameter \<open>getIDRange\<close>. The sub-GID file is only consulted after the
  sub-UID range has passed its size check, as in the source.
\<close>

definition getReverseUserMaps ::
  "(subid_file \<Rightarrow> uint32 \<Rightarrow> error + LinuxIDMapping) \<Rightarrow> uint32 \<Rightarrow> uint32 \<Rightarrow> uint32
     \<Rightarrow> error + (LinuxIDMapping list \<times> LinuxIDMapping list)" where
  "getReverseUserMaps getIDRange hostUID targetUID targetGID =
     (case getIDRange SubUIDFile hostUID of
        Inl err \<Rightarrow> Inl err
      | Inr subuidRange \<Rightarrow>
          if Size subuidRange < 65536 then Inl (RangeSizeTooSmall (Size subuidRange))
          else
            (case getIDRange SubGIDFile hostUID of
               Inl err \<Rightarrow> Inl err
             | Inr subgidRange \<Rightarrow>
                 if Size subgidRange < 65536 then Inl (RangeSizeTooSmall (Size subgidRange))
                 else Inr (reverseMapByRange targetUID targetGID subuidRange subgidRange)))"

text \<open>
  How a mapping table is read (the kernel's rule, and the data model's): the entries are
  consulted in order and the first whose container-ID interval
  \<open>[ContainerID, ContainerID + Size)\<close> holds the queried ID decides; the interval is
  taken over the naturals, so it does not wrap.
\<close>

fun idmap_lookup :: "LinuxIDMapping list \<Rightarrow> uint32 \<Rightarrow> uint32 option" where
  "idmap_lookup [] c = None"
| "idmap_lookup (e # es) c =
     (if unat (ContainerID e) \<le> unat c \<and> unat c < unat (ContainerID e) + unat (Size e)
      then Some (HostID e + (c - ContainerID e))
      else idmap_lookup es c)"

section \<open>String helpers of the Go standard library\<close>

text \<open>\<open>strings.HasPrefix s p\<close> is \<^term>\<open>prefix p s\<close>.\<close>

text \<open>\<open>strings.TrimPrefix\<close>: the string without the prefix, or unchanged when it does
  not start with it.\<close>

definition TrimPrefix :: "string \<Rightarrow> string \<Rightarrow> string" where
  "TrimPrefix s p = (if prefix p s then drop (length p) s else s)"

text \<open>\<open>strings.SplitN(s, "=", 2)\<close>: one element when \<open>s\<close> has no \<open>=\<close>, else the text
  before the first \<open>=\<close> and the text after it.\<close>

definition SplitN_eq2 :: "string \<Rightarrow> string list" where
  "SplitN_eq2 s =
     (if CHR ''='' \<in> set s
      then [takeWhile (\<lambda>c. c \<noteq> CHR ''='') s, tl (dropWhile (\<lambda>c. c \<noteq> CHR ''='') s)]
      else [s])"

text \<open>\<open>strings.Contains s sub\<close>: \<open>sub\<close> occurs in \<open>s\<close> at some position.\<close>

fun Contains :: "string \<Rightarrow> string \<Rightarrow> bool" where
  "Contains [] sub = (sub = [])"
| "Contains (c # cs) sub = (prefix sub (c # cs) \<or> Contains cs sub)"

text \<open>The number of positions of \<open>s\<close> at which \<open>sub\<close> occurs: how often a value
  contains a path.\<close>

fun occurrences :: "string \<Rightarrow> string \<Rightarrow> nat" where
  "occurrences [] sub = (if sub = [] then 1 else 0)"
| "occurrences (c # cs) sub = (if prefix sub (c # cs) then 1 else 0) + occurrences cs sub"

text \<open>The elements of a search path, as \<open>strings.Split(s, ":")\<close> gives them: the
  pieces between the colons, at least one, possibly empty. It says when a directory is
  an element of an \<open>LD_LIBRARY_PATH\<close> value.\<close>

fun path_elements :: "string \<Rightarrow> string list" where
  "path_elements [] = [[]]"
| "path_elements (c # cs) =
     (if c = CHR '':'' then [] # path_elements cs
      else (case path_elements cs of
              [] \<Rightarrow> [[c]]
            | e # es \<Rightarrow> (c # e) # es))"

section \<open>Go maps\<close>

text \<open>
  A \<open>map[string]string\<close> is a partial function. A \<open>range\<close> loop visits every key of
  the map once, in an order the language leaves open: the order is a parameter, a
  list of keys, and the loop body sees the pairs \<open>range_pairs order m\<close>.
\<close>

type_synonym gomap = "string \<rightharpoonup> string"

definition range_pairs :: "string list \<Rightarrow> gomap \<Rightarrow> (string \<times> string) list" where
  "range_pairs order m = List.map_filter (\<lambda>k. map_option (Pair k) (m k)) order"

text \<open>Modelled from the spec: \<open>mergeMap\<close> (launcher package, not in the sources at
  hand): each layer may overwrite keys set by a lower layer.\<close>

definition mergeMap :: "gomap \<Rightarrow> gomap \<Rightarrow> gomap" where
  "mergeMap a b = a ++ b"

section \<open>Image and launch records\<close>

text \<open>The fields of \<open>imgspecv1.Image.Config\<close> that the launcher reads.\<close>

record ImageConfig =
  Config_User :: string
  Config_Env :: "string list"
  Entrypoint :: "string list"
  Cmd :: "string list"

record imgspec_Image =
  Config :: ImageConfig

text \<open>\<open>launcher.ExecParams\<close>.\<close>

record ExecParams =
  Image :: string
  Action :: string
  Process :: string
  Args :: "string list"

text \<open>The fields of \<open>launcher.Options\<close> (\<open>l.cfg\<close>) read by the process assembly.\<close>

record Options =
  EnvFile :: string
  Env :: gomap
  NoPrivs :: bool
  KeepPrivs :: bool
  AddCaps :: string
  DropCaps :: string
  CwdPath :: string

record Launcher =
  cfg :: Options
  homeDest :: string
  nativeSIF :: bool

text \<open>\<open>launcher.Namespaces\<close>: the requested namespace flags.\<close>

record Namespaces =
  IPC :: bool
  Net :: bool
  PID :: bool
  User :: bool
  UTS :: bool

text \<open>Runtime-spec types.\<close>

datatype LinuxNamespaceType =
    PIDNamespace | NetworkNamespace | MountNamespace | IPCNamespace
  | UTSNamespace | UserNamespace | CgroupNamespace | TimeNamespace

record LinuxNamespace =
  Type :: LinuxNamespaceType
  Path :: string

record LinuxCapabilities =
  Bounding :: "string list"
  Effective :: "string list"
  Inheritable :: "string list"
  Permitted :: "string list"
  Ambient :: "string list"

record specs_User =
  UID :: uint32
  GID :: uint32
  AdditionalGids :: "uint32 list"

record specs_Process =
  Process_Args :: "string list"
  Process_Capabilities :: LinuxCapabilities
  Process_Cwd :: string
  Process_Env :: "string list"
  NoNewPrivileges :: bool
  Process_User :: specs_User
  Terminal :: bool

text \<open>
  Everything the assembly reads from outside its arguments: the host process's
  environment, files, the shell evaluator, the capability tables and the terminal. The
  resolvers are functions of this snapshot.
  \<^item> \<open>LookupEnv_TERM\<close>: \<open>os.LookupEnv("TERM")\<close>; \<open>Environ\<close>: \<open>os.Environ()\<close>;
  \<^item> \<open>ReadFile\<close>, \<open>EvaluateEnv\<close>: \<open>os.ReadFile\<close> and \<open>interpreter.EvaluateEnv\<close> with
    an empty starting environment; \<open>ReadOnlyVars\<close>: the keys of \<open>env.ReadOnlyVars\<close>;
  \<^item> \<open>GetProcessEffective\<close>, \<open>ToStrings\<close>, \<open>Split\<close>: the functions of that name in the
    \<open>capabilities\<close> package; \<open>DefaultCaps\<close>: \<open>oci.DefaultCaps\<close>;
  \<^item> \<open>IsTerminal\<close>: \<open>term.IsTerminal(syscall.Stdin)\<close>;
  \<^item> \<open>ActionScriptArgs\<close>: the method of \<open>launcher.ExecParams\<close>;
  \<^item> \<open>range_order\<close>: the order in which \<open>range\<close> visits the keys of the runtime
    environment map.
\<close>

record Host =
  LookupEnv_TERM :: "string option"
  Environ :: "string list"
  ReadFile :: "string \<Rightarrow> error + string"
  EvaluateEnv :: "string \<Rightarrow> error + string list"
  ReadOnlyVars :: "string set"
  GetProcessEffective :: "error + 64 word"
  ToStrings :: "64 word \<Rightarrow> string list"
  DefaultCaps :: "string list"
  Split :: "string \<Rightarrow> string list \<times> string list"
  IsTerminal :: bool
  ActionScriptArgs :: "ExecParams \<Rightarrow> error + string list"
  range_order :: "string list"

section \<open>Environment (process\_linux.go)\<close>

definition apptainerLibs :: string where
  "apptainerLibs = ''/.singularity.d/libs''"

text \<open>Modelled from the spec: the constants \<open>env.ApptainerPrefix\<close> and
  \<open>env.ApptainerEnvPrefix\<close> (package \<open>env\<close>, not in the sources at hand): the prefix
  of the two runtime-identity variables, and the fixed pass-through prefix
  \<open>APPTAINERENV_\<close>, which the test of \<open>apptainerEnvMap\<close> uses too.\<close>

definition ApptainerPrefix :: string where
  "ApptainerPrefix = ''APPTAINER_''"

definition ApptainerEnvPrefix :: string where
  "ApptainerEnvPrefix = ''APPTAINERENV_''"

text \<open>Modelled from the spec: \<open>Generator.SetProcessEnv\<close> (package \<open>generate\<close>, not in
  the sources at hand): the environment is an ordered \<open>KEY=VALUE\<close> list in which a
  later write to a key replaces the entry of that key; a key not yet in the list is
  appended.\<close>

fun SetProcessEnv :: "string \<Rightarrow> string \<Rightarrow> string list \<Rightarrow> string list" where
  "SetProcessEnv k v [] = [k @ ''='' @ v]"
| "SetProcessEnv k v (e # es) =
     (if prefix (k @ ''='') e then (k @ ''='' @ v) # es else e # SetProcessEnv k v es)"

text \<open>What a reader of the list finds for a key: the value of the first entry
  \<open>KEY=...\<close>.\<close>

fun env_get :: "string list \<Rightarrow> string \<Rightarrow> string option" where
  "env_get [] k = None"
| "env_get (e # es) k =
     (if prefix (k @ ''='') e then Some (drop (length k + 1) e) else env_get es k)"

text \<open>The local variables of \<open>getProcessEnv\<close>, with \<open>g.Config.Process.Env\<close> as
  \<open>genv\<close>.\<close>

record env_vars =
  path :: string
  appendPath :: string
  prependPath :: string
  ldLibraryPath :: string
  genv :: "string list"

text \<open>Body of the first loop of \<open>getProcessEnv\<close>, over the image's environment.\<close>

definition image_env_step :: "string \<Rightarrow> env_vars \<Rightarrow> env_vars" where
  "image_env_step env st =
     (let e = SplitN_eq2 env in
      if length e < 2 then st
      else
        (let st1 = (if e ! 0 = ''PATH'' then st\<lparr>path := e ! 1\<rparr> else st)
         in (if e ! 0 = ''LD_LIBRARY_PATH'' then st1\<lparr>ldLibraryPath := e ! 1\<rparr> else st1)))"

text \<open>Body of the second loop, over the runtime environment: the \<open>switch\<close> on the
  key.\<close>

definition runtime_env_step :: "string \<times> string \<Rightarrow> env_vars \<Rightarrow> env_vars" where
  "runtime_env_step kv st =
     (let k = fst kv; v = snd kv in
      if k = ''PATH'' then st\<lparr>path := v\<rparr>
      else if k = ''APPEND_PATH'' then st\<lparr>appendPath := v\<rparr>
      else if k = ''PREPEND_PATH'' then st\<lparr>prependPath := v\<rparr>
      else if k = ''LD_LIBRARY_PATH'' then st\<lparr>ldLibraryPath := v\<rparr>
      else st\<lparr>genv := SetProcessEnv k v (genv st)\<rparr>)"

text \<open>\<open>getProcessEnv\<close>; \<open>runtimeEnv\<close> holds the pairs of the runtime map in the
  order the \<open>range\<close> loop visits them.\<close>

definition getProcessEnv :: "imgspec_Image \<Rightarrow> (string \<times> string) list \<Rightarrow> string list" where
  "getProcessEnv imageSpec runtimeEnv =
     (let st0 = \<lparr>path = '''', appendPath = '''', prependPath = '''', ldLibraryPath = '''',
                 genv = Config_Env (Config imageSpec)\<rparr>;
          st1 = fold image_env_step (Config_Env (Config imageSpec)) st0;
          st2 = fold runtime_env_step runtimeEnv st1;
          path1 = (if appendPath st2 \<noteq> '''' then path st2 @ '':'' @ appendPath st2
                   else path st2);
          path2 = (if prependPath st2 \<noteq> '''' then prependPath st2 @ '':'' @ path1
                   else path1);
          env1 = (if path2 \<noteq> '''' then SetProcessEnv ''PATH'' path2 (genv st2)
                  else genv st2);
          ld = (if \<not> Contains (ldLibraryPath st2) apptainerLibs
                then TrimPrefix (ldLibraryPath st2 @ '':'' @ apptainerLibs) '':''
                else ldLibraryPath st2)
      in SetProcessEnv ''LD_LIBRARY_PATH'' ld env1)"

definition defaultEnv :: "string \<Rightarrow> string \<Rightarrow> gomap" where
  "defaultEnv image_path bundle =
     [ApptainerPrefix @ ''CONTAINER'' \<mapsto> bundle, ApptainerPrefix @ ''NAME'' \<mapsto> image_path]"

definition apptainerEnvMap_step :: "string \<Rightarrow> gomap \<Rightarrow> gomap" where
  "apptainerEnvMap_step envVar apptainerEnv =
     (if \<not> prefix ApptainerEnvPrefix envVar then apptainerEnv
      else
        (let parts = SplitN_eq2 envVar in
         if length parts < 2 then apptainerEnv
         else apptainerEnv(TrimPrefix (parts ! 0) ApptainerEnvPrefix \<mapsto> parts ! 1)))"

definition apptainerEnvMap :: "Host \<Rightarrow> gomap" where
  "apptainerEnvMap h = fold apptainerEnvMap_step (Environ h) Map.empty"

definition envFileMap_step :: "string set \<Rightarrow> string \<Rightarrow> gomap \<Rightarrow> gomap" where
  "envFileMap_step readOnly envVar envMap =
     (let parts = SplitN_eq2 envVar in
      if length parts < 2 then envMap
      else if parts ! 0 \<in> readOnly then envMap
      else envMap(parts ! 0 \<mapsto> parts ! 1))"

definition envFileMap :: "Host \<Rightarrow> string \<Rightarrow> error + gomap" where
  "envFileMap h f =
     (case ReadFile h f of
        Inl err \<Rightarrow> Inl (EnvFileRead f err)
      | Inr content \<Rightarrow>
          (case EvaluateEnv h content of
             Inl err \<Rightarrow> Inl (EnvFileProcess f err)
           | Inr shellEnv \<Rightarrow> Inr (fold (envFileMap_step (ReadOnlyVars h)) shellEnv Map.empty)))"

section \<open>Capabilities (process\_linux.go)\<close>

text \<open>Modelled from the spec: \<open>capabilities.RemoveDuplicated\<close> (not in the sources at
  hand): duplicates are collapsed; the first occurrence of a name is kept.\<close>

fun RemoveDuplicated_from :: "string list \<Rightarrow> string list \<Rightarrow> string list" where
  "RemoveDuplicated_from seen [] = seen"
| "RemoveDuplicated_from seen (c # cs) =
     (if c \<in> set seen then RemoveDuplicated_from seen cs
      else RemoveDuplicated_from (seen @ [c]) cs)"

definition RemoveDuplicated :: "string list \<Rightarrow> string list" where
  "RemoveDuplicated caps = RemoveDuplicated_from [] caps"

text \<open>\<open>lo.Without\<close> (library \<open>samber/lo\<close>): the collection without every element that
  is among the excluded ones, order kept.\<close>

definition Without :: "string list \<Rightarrow> string list \<Rightarrow> string list" where
  "Without collection exclude = filter (\<lambda>x. x \<notin> set exclude) collection"

definition getBaseCapabilities :: "Launcher \<Rightarrow> Host \<Rightarrow> error + string list" where
  "getBaseCapabilities l h =
     (if NoPrivs (cfg l) then Inr []
      else if KeepPrivs (cfg l) then
        (case GetProcessEffective h of
           Inl err \<Rightarrow> Inl err
         | Inr c \<Rightarrow> Inr (ToStrings h c))
      else Inr (DefaultCaps h))"

text \<open>\<open>getProcessCapabilities\<close>. The names \<open>Split\<close> does not know are only logged as
  a warning; they do not reach the result.\<close>

definition getProcessCapabilities :: "Launcher \<Rightarrow> Host \<Rightarrow> uint32 \<Rightarrow> error + LinuxCapabilities" where
  "getProcessCapabilities l h targetUID =
     (case getBaseCapabilities l h of
        Inl err \<Rightarrow> Inl err
      | Inr caps0 \<Rightarrow>
          (let addCaps = fst (Split h (AddCaps (cfg l)));
               dropCaps = fst (Split h (DropCaps (cfg l)));
               caps1 = caps0 @ addCaps;
               caps2 = RemoveDuplicated caps1;
               caps = Without caps2 dropCaps
           in if targetUID = 0 then
                Inr \<lparr>Bounding = caps, Effective = caps, Inheritable = [],
                     Permitted = caps, Ambient = []\<rparr>
              else
                (let explicitCaps = Without addCaps dropCaps
                 in Inr \<lparr>Bounding = caps, Effective = explicitCaps,
                         Inheritable = explicitCaps, Permitted = explicitCaps,
                         Ambient = explicitCaps\<rparr>)))"

section \<open>Process arguments and working directory (process\_linux.go)\<close>

definition ociShellScript :: string where
  "ociShellScript =
     ''export PS1='' @ [CHR 0x27] @ ''Apptainer> '' @ [CHR 0x27] @
     ''; test -x /bin/bash && exec /bin/bash --norc || exec /bin/sh''"

definition getProcessArgs :: "imgspec_Image \<Rightarrow> ExecParams \<Rightarrow> string list" where
  "getProcessArgs imageSpec ep =
     (let processArgs =
            (if Process ep \<noteq> '''' then [Process ep] else Entrypoint (Config imageSpec))
      in if length (Args ep) > 0 then processArgs @ Args ep
         else if Process ep = '''' then processArgs @ Cmd (Config imageSpec)
         else processArgs)"

definition getProcessCwd :: "Launcher \<Rightarrow> error + string" where
  "getProcessCwd l =
     (if length (CwdPath (cfg l)) > 0 then Inr (CwdPath (cfg l)) else Inr (homeDest l))"

definition getProcessTerminal :: "Host \<Rightarrow> bool" where
  "getProcessTerminal h = IsTerminal h"

text \<open>The first block of \<open>getProcess\<close>: the runtime environment \<open>rtEnv\<close>, or the
  error of the environment file.\<close>

definition getProcess_rtEnv ::
  "Launcher \<Rightarrow> Host \<Rightarrow> imgspec_Image \<Rightarrow> string \<Rightarrow> ExecParams \<Rightarrow> error + gomap" where
  "getProcess_rtEnv l h imgSpec bundle ep =
     (let rtEnv0 = defaultEnv (Image ep) bundle;
          rtEnv1 = (case LookupEnv_TERM h of
                      Some hostTerm \<Rightarrow> rtEnv0(''TERM'' \<mapsto> hostTerm)
                    | None \<Rightarrow> rtEnv0);
          rtEnv2 = mergeMap rtEnv1 (apptainerEnvMap h)
      in case (if EnvFile (cfg l) \<noteq> '''' then
                 (case envFileMap h (EnvFile (cfg l)) of
                    Inl err \<Rightarrow> Inl err
                  | Inr e \<Rightarrow> Inr (mergeMap rtEnv2 e))
               else Inr rtEnv2) of
           Inl err \<Rightarrow> Inl err
         | Inr rtEnv3 \<Rightarrow>
             (let rtEnv4 = mergeMap rtEnv3 (Env (cfg l))
              in Inr (if Config_User (Config imgSpec) = '''' then rtEnv4(''HOME'' \<mapsto> homeDest l)
                      else rtEnv4)))"

text \<open>The \<open>switch\<close> of \<open>getProcess\<close> that chooses the arguments.\<close>

definition getProcess_args ::
  "Launcher \<Rightarrow> Host \<Rightarrow> imgspec_Image \<Rightarrow> ExecParams \<Rightarrow> error + string list" where
  "getProcess_args l h imgSpec ep =
     (if nativeSIF l then
        (case ActionScriptArgs h ep of
           Inl err \<Rightarrow> Inl (GettingProcessArgs err)
         | Inr args \<Rightarrow> Inr args)
      else if Action ep = ''shell'' then Inr [''/bin/sh'', ''-c'', ociShellScript]
      else Inr (getProcessArgs imgSpec ep))"

definition getProcess ::
  "Launcher \<Rightarrow> Host \<Rightarrow> imgspec_Image \<Rightarrow> string \<Rightarrow> ExecParams \<Rightarrow> specs_User
     \<Rightarrow> error + specs_Process" where
  "getProcess l h imgSpec bundle ep u =
     (case getProcess_rtEnv l h imgSpec bundle ep of
        Inl err \<Rightarrow> Inl err
      | Inr rtEnv \<Rightarrow>
          (case getProcessCwd l of
             Inl err \<Rightarrow> Inl err
           | Inr cwd \<Rightarrow>
               (let noNewPrivs = (if NoPrivs (cfg l) then True else False)
                in case getProcessCapabilities l h (UID u) of
                     Inl err \<Rightarrow> Inl err
                   | Inr caps \<Rightarrow>
                       (case getProcess_args l h imgSpec ep of
                          Inl err \<Rightarrow> Inl err
                        | Inr args \<Rightarrow>
                            Inr \<lparr>Process_Args = args,
                                 Process_Capabilities = caps,
                                 Process_Cwd = cwd,
                                 Process_Env =
                                   getProcessEnv imgSpec (range_pairs (range_order h) rtEnv),
                                 NoNewPrivileges = noNewPrivs,
                                 Process_User = u,
                                 Terminal = getProcessTerminal h\<rparr>))))"

section \<open>Namespaces (spec\_linux.go, rootless.go)\<close>

definition defaultNamespaces :: "LinuxNamespace list" where
  "defaultNamespaces =
     [\<lparr>Type = IPCNamespace, Path = ''''\<rparr>,
      \<lparr>Type = PIDNamespace, Path = ''''\<rparr>,
      \<lparr>Type = MountNamespace, Path = ''''\<rparr>]"

text \<open>What \<open>rootless.Getuid\<close> reads: the value of the environment variable
  \<open>_CONTAINERS_ROOTLESS_UID\<close> (empty when unset), \<open>strconv.Atoi\<close>, and the effective
  UID of the process.\<close>

record RootlessHost =
  Getenv_UIDEnv :: string
  Atoi :: "string \<Rightarrow> error + int"
  Geteuid :: int

definition Getuid :: "RootlessHost \<Rightarrow> error + int" where
  "Getuid rh =
     (let u = Getenv_UIDEnv rh in
      if u \<noteq> '''' then Atoi rh u else Inr (Geteuid rh))"

definition notice_ipc :: string where
  "notice_ipc = ''--oci runtime always uses an IPC namespace, ipc flag is redundant.''"

definition notice_pid :: string where
  "notice_pid = ''--oci runtime always uses a PID namespace, pid flag is redundant.''"

definition notice_user :: string where
  "notice_user = ''The --oci runtime always creates a user namespace when run as non-root, --userns / -u flag is redundant.''"

text \<open>
  \<open>addNamespaces\<close> mutates \<open>spec.Linux.Namespaces\<close> and logs notices; the model takes
  the namespace list of the spec and returns the list as the call leaves it, the
  notices logged, and the error (\<open>None\<close> for \<open>nil\<close>). A failing \<open>Getuid\<close> returns
  early, after a Network namespace may already have been appended.
\<close>

definition addNamespaces ::
  "RootlessHost \<Rightarrow> LinuxNamespace list \<Rightarrow> Namespaces
     \<Rightarrow> LinuxNamespace list \<times> string list \<times> error option" where
  "addNamespaces rh namespaces ns =
     (let log1 = (if IPC ns then [notice_ipc] else []);
          ns1 = (if Net ns then namespaces @ [\<lparr>Type = NetworkNamespace, Path = ''''\<rparr>]
                 else namespaces);
          log2 = (if PID ns then log1 @ [notice_pid] else log1)
      in case (if User ns then
                 (case Getuid rh of
                    Inl err \<Rightarrow> Inl err
                  | Inr uid \<Rightarrow>
                      if uid = 0 then Inr (ns1 @ [\<lparr>Type = UserNamespace, Path = ''''\<rparr>], log2)
                      else Inr (ns1, log2 @ [notice_user]))
               else Inr (ns1, log2)) of
           Inl err \<Rightarrow> (ns1, log2, Some err)
         | Inr (ns2, log3) \<Rightarrow>
             ((if UTS ns then ns2 @ [\<lparr>Type = UTSNamespace, Path = ''''\<rparr>] else ns2),
              log3, None))"

section \<open>Example inputs\<close>

text \<open>
  One concrete launch, used to run the definitions: an image with entrypoint
  \<open>/bin/foo\<close>, default command \<open>--flag\<close> and \<open>PATH=/a\<close>; a host whose environment
  passes \<open>PATH=/b\<close> and \<open>FOO=bar\<close> through the prefix; an environment file that
  evaluates to \<open>BAR=1\<close> and the read-only \<open>PWD\<close>; and the explicit override
  \<open>PATH=/c\<close>.
\<close>

definition example_image :: imgspec_Image where
  "example_image =
     \<lparr>Config = \<lparr>Config_User = '''', Config_Env = [''PATH=/a''],
                 Entrypoint = [''/bin/foo''], Cmd = [''--flag'']\<rparr>\<rparr>"

text \<open>A second image, which declares the library bind path once, in front.\<close>

definition example_image_ld :: imgspec_Image where
  "example_image_ld =
     \<lparr>Config = \<lparr>Config_User = '''',
                 Config_Env = [''PATH=/a'', ''LD_LIBRARY_PATH=/.singularity.d/libs:/opt/lib''],
                 Entrypoint = [], Cmd = []\<rparr>\<rparr>"

definition example_host :: Host where
  "example_host =
     \<lparr>LookupEnv_TERM = Some ''xterm'',
      Environ = [''TERM=xterm'', ''APPTAINERENV_PATH=/b'', ''APPTAINERENV_FOO=bar'',
                 ''SHELL=/bin/sh''],
      ReadFile = (\<lambda>f. if f = ''/env.sh'' then Inr ''BAR=1'' else Inl (External ''no such file'')),
      EvaluateEnv = (\<lambda>content. Inr [''BAR=1'', ''PWD=/'']),
      ReadOnlyVars = {''PWD'', ''UID''},
      GetProcessEffective = Inr 0,
      ToStrings = (\<lambda>c. []),
      DefaultCaps = [''CAP_CHOWN'', ''CAP_KILL'', ''CAP_SETUID''],
      Split = (\<lambda>s. if s = ''CAP_NET_RAW,CAP_KILL'' then ([''CAP_NET_RAW'', ''CAP_KILL''], [])
                   else if s = ''CAP_KILL'' then ([''CAP_KILL''], [])
                   else ([], [])),
      IsTerminal = False,
      ActionScriptArgs = (\<lambda>ep. Inl (External ''not a native image'')),
      range_order = [''HOME'', ''PATH'', ''FOO'', ''BAR'', ''TERM'', ''APPTAINER_NAME'',
                     ''APPTAINER_CONTAINER'']\<rparr>"

definition example_launcher :: Launcher where
  "example_launcher =
     \<lparr>cfg = \<lparr>EnvFile = ''/env.sh'', Env = [''PATH'' \<mapsto> ''/c''], NoPrivs = False,
              KeepPrivs = False, AddCaps = ''CAP_NET_RAW,CAP_KILL'', DropCaps = ''CAP_KILL'',
              CwdPath = ''''\<rparr>,
      homeDest = ''/home/u'', nativeSIF = False\<rparr>"

definition example_ep :: ExecParams where
  "example_ep = \<lparr>Image = ''img.sif'', Action = ''run'', Process = '''', Args = []\<rparr>"

definition example_user :: specs_User where
  "example_user = \<lparr>UID = 1000, GID = 1000, AdditionalGids = []\<rparr>"

section \<open>Properties of the ID-mapping reversal\<close>

lemma unat_succ_below: "(t :: uint32) < r \<Longrightarrow> unat (t + 1) = unat t + 1"
proof -
  assume "t < r"
  then have "unat t < unat r" by (simp add: word_less_nat_alt)
  moreover have "unat r < 2 ^ 32" using unsigned_less [of r] by simp
  ultimately have "unat t + 1 < 2 ^ 32" by linarith
  then show ?thesis by (simp add: unat_word_ariths)
qed

lemma unat_diff_below: "(t :: uint32) < r \<Longrightarrow> unat (r - t) = unat r - unat t"
  by (simp add: unat_sub word_less_nat_alt word_le_nat_alt)



text \<open>
  C2, as stated, fails: for target 1000 and range size 65536 the third entry has size
  64536, not 64535, and container ID 65536 (the range size itself) is covered.
\<close>

theorem reverseMapByRange_third_entry_counterexample:
  "fst (reverseMapByRange 1000 2000
          \<lparr>ContainerID = 1, HostID = 100000, Size = 65536\<rparr>
          \<lparr>ContainerID = 1, HostID = 100000, Size = 65536\<rparr>)
     \<noteq> [\<lparr>ContainerID = 0, HostID = 1, Size = 1000\<rparr>,
         \<lparr>ContainerID = 1000, HostID = 0, Size = 1\<rparr>,
         \<lparr>ContainerID = 1001, HostID = 1001, Size = 65536 - 1000 - 1\<rparr>]
   \<and> idmap_lookup (fst (reverseMapByRange 1000 2000
          \<lparr>ContainerID = 1, HostID = 100000, Size = 65536\<rparr>
          \<lparr>ContainerID = 1, HostID = 100000, Size = 65536\<rparr>)) 65536 = Some 65536"
  by (simp add: reverseMapByRange_def)

text \<open>
  C2, amended. Each table on its own, whatever the other target and range are: for a
  target below the range size, \<open>reverseMapByRange\<close> produces exactly three entries:
  container IDs \<open>[0, t)\<close> from host IDs \<open>[1, t+1)\<close>; container ID \<open>t\<close> from host ID
  0; and an identity entry of size \<open>r - t\<close> starting at \<open>t + 1\<close>, so that the
  container IDs \<open>t+1, ..., r\<close> (the range size \<open>r\<close> included) map to themselves and
  no container ID beyond \<open>r\<close> is covered. This holds for the UID table when the target
  UID is below the sub-UID range size, and for the GID table when the target GID is
  below the sub-GID range size.
\<close>

theorem reverseMapByRange_three_entries:
  "(t < Size subuidRange \<longrightarrow>
      fst (reverseMapByRange t g subuidRange subgidRange) =
        [\<lparr>ContainerID = 0, HostID = 1, Size = t\<rparr>,
         \<lparr>ContainerID = t, HostID = 0, Size = 1\<rparr>,
         \<lparr>ContainerID = t + 1, HostID = t + 1, Size = Size subuidRange - t\<rparr>]
    \<and> (\<forall>c. t < c \<and> c \<le> Size subuidRange \<longrightarrow>
          idmap_lookup (fst (reverseMapByRange t g subuidRange subgidRange)) c = Some c)
    \<and> (\<forall>c. Size subuidRange < c \<longrightarrow>
          idmap_lookup (fst (reverseMapByRange t g subuidRange subgidRange)) c = None))
   \<and> (g < Size subgidRange \<longrightarrow>
      snd (reverseMapByRange t g subuidRange subgidRange) =
        [\<lparr>ContainerID = 0, HostID = 1, Size = g\<rparr>,
         \<lparr>ContainerID = g, HostID = 0, Size = 1\<rparr>,
         \<lparr>ContainerID = g + 1, HostID = g + 1, Size = Size subgidRange - g\<rparr>]
    \<and> (\<forall>c. g < c \<and> c \<le> Size subgidRange \<longrightarrow>
          idmap_lookup (snd (reverseMapByRange t g subuidRange subgidRange)) c = Some c)
    \<and> (\<forall>c. Size subgidRange < c \<longrightarrow>
          idmap_lookup (snd (reverseMapByRange t g subuidRange subgidRange)) c = None))"
proof (intro conjI impI)
  assume a: "t < Size subuidRange"
  show "fst (reverseMapByRange t g subuidRange subgidRange) =
        [\<lparr>ContainerID = 0, HostID = 1, Size = t\<rparr>,
         \<lparr>ContainerID = t, HostID = 0, Size = 1\<rparr>,
         \<lparr>ContainerID = t + 1, HostID = t + 1, Size = Size subuidRange - t\<rparr>]"
    using a by (simp add: reverseMapByRange_def Let_def)
  show "\<forall>c. t < c \<and> c \<le> Size subuidRange \<longrightarrow>
          idmap_lookup (fst (reverseMapByRange t g subuidRange subgidRange)) c = Some c"
    using a unat_succ_below [OF a] unat_diff_below [OF a]
    by (auto simp: reverseMapByRange_def Let_def word_less_nat_alt word_le_nat_alt)
  show "\<forall>c. Size subuidRange < c \<longrightarrow>
          idmap_lookup (fst (reverseMapByRange t g subuidRange subgidRange)) c = None"
    using a unat_succ_below [OF a] unat_diff_below [OF a]
    by (auto simp: reverseMapByRange_def Let_def word_less_nat_alt word_le_nat_alt)
next
  assume a: "g < Size subgidRange"
  show "snd (reverseMapByRange t g subuidRange subgidRange) =
        [\<lparr>ContainerID = 0, HostID = 1, Size = g\<rparr>,
         \<lparr>ContainerID = g, HostID = 0, Size = 1\<rparr>,
         \<lparr>ContainerID = g + 1, HostID = g + 1, Size = Size subgidRange - g\<rparr>]"
    using a by (simp add: reverseMapByRange_def Let_def)
  show "\<forall>c. g < c \<and> c \<le> Size subgidRange \<longrightarrow>
          idmap_lookup (snd (reverseMapByRange t g subuidRange subgidRange)) c = Some c"
    using a unat_succ_below [OF a] unat_diff_below [OF a]
    by (auto simp: reverseMapByRange_def Let_def word_less_nat_alt word_le_nat_alt)
  show "\<forall>c. Size subgidRange < c \<longrightarrow>
          idmap_lookup (snd (reverseMapByRange t g subuidRange subgidRange)) c = None"
    using a unat_succ_below [OF a] unat_diff_below [OF a]
    by (auto simp: reverseMapByRange_def Let_def word_less_nat_alt word_le_nat_alt)
qed

theorem reverseMapByRange_three_entries_witness:
  "(1000 :: uint32) < Size \<lparr>ContainerID = 1, HostID = 100000, Size = 65536\<rparr>
   \<and> \<not> (70000 :: uint32) < Size \<lparr>ContainerID = 1, HostID = 200000, Size = 65536\<rparr>
   \<and> fst (reverseMapByRange 1000 70000
          \<lparr>ContainerID = 1, HostID = 100000, Size = 65536\<rparr>
          \<lparr>ContainerID = 1, HostID = 200000, Size = 65536\<rparr>) =
        [\<lparr>ContainerID = 0, HostID = 1, Size = 1000\<rparr>,
         \<lparr>ContainerID = 1000, HostID = 0, Size = 1\<rparr>,
         \<lparr>ContainerID = 1001, HostID = 1001, Size = 64536\<rparr>]
   \<and> idmap_lookup (fst (reverseMapByRange 1000 70000
          \<lparr>ContainerID = 1, HostID = 100000, Size = 65536\<rparr>
          \<lparr>ContainerID = 1, HostID = 200000, Size = 65536\<rparr>)) 65536 = Some 65536
   \<and> idmap_lookup (fst (reverseMapByRange 1000 70000
          \<lparr>ContainerID = 1, HostID = 100000, Size = 65536\<rparr>
          \<lparr>ContainerID = 1, HostID = 200000, Size = 65536\<rparr>)) 65537 = None
   \<and> snd (reverseMapByRange 70000 2000
          \<lparr>ContainerID = 1, HostID = 100000, Size = 65536\<rparr>
          \<lparr>ContainerID = 1, HostID = 200000, Size = 65536\<rparr>) =
        [\<lparr>ContainerID = 0, HostID = 1, Size = 2000\<rparr>,
         \<lparr>ContainerID = 2000, HostID = 0, Size = 1\<rparr>,
         \<lparr>ContainerID = 2001, HostID = 2001, Size = 63536\<rparr>]
   \<and> idmap_lookup (snd (reverseMapByRange 70000 2000
          \<lparr>ContainerID = 1, HostID = 100000, Size = 65536\<rparr>
          \<lparr>ContainerID = 1, HostID = 200000, Size = 65536\<rparr>)) 65536 = Some 65536"
proof -
  let ?su = "\<lparr>ContainerID = 1, HostID = 100000, Size = 65536 :: uint32\<rparr>"
  let ?sg = "\<lparr>ContainerID = 1, HostID = 200000, Size = 65536 :: uint32\<rparr>"
  have u: "(1000 :: uint32) < Size ?su" by simp
  have g: "(2000 :: uint32) < Size ?sg" by simp
  have n: "\<not> (70000 :: uint32) < Size ?sg" by simp
  from reverseMapByRange_three_entries [of 1000 ?su 70000 ?sg] u
  have ut: "fst (reverseMapByRange 1000 70000 ?su ?sg) =
              [\<lparr>ContainerID = 0, HostID = 1, Size = 1000\<rparr>,
               \<lparr>ContainerID = 1000, HostID = 0, Size = 1\<rparr>,
               \<lparr>ContainerID = 1001, HostID = 1001, Size = 64536\<rparr>]"
    and u1: "idmap_lookup (fst (reverseMapByRange 1000 70000 ?su ?sg)) 65536 = Some 65536"
    and u2: "idmap_lookup (fst (reverseMapByRange 1000 70000 ?su ?sg)) 65537 = None"
    by simp_all
  from reverseMapByRange_three_entries [of 70000 ?su 2000 ?sg] g
  have gt: "snd (reverseMapByRange 70000 2000 ?su ?sg) =
              [\<lparr>ContainerID = 0, HostID = 1, Size = 2000\<rparr>,
               \<lparr>ContainerID = 2000, HostID = 0, Size = 1\<rparr>,
               \<lparr>ContainerID = 2001, HostID = 2001, Size = 63536\<rparr>]"
    and g1: "idmap_lookup (snd (reverseMapByRange 70000 2000 ?su ?sg)) 65536 = Some 65536"
    by simp_all
  from u n ut u1 u2 gt g1 show ?thesis by simp
qed

text \<open>
  C3, as stated, fails at target 0: the first entry of the table then has size 0.
\<close>

theorem reverseMapByRange_size_counterexample:
  "fst (reverseMapByRange 0 0
          \<lparr>ContainerID = 1, HostID = 100000, Size = 65536\<rparr>
          \<lparr>ContainerID = 1, HostID = 100000, Size = 65536\<rparr>) ! 0
     = \<lparr>ContainerID = 0, HostID = 1, Size = 0\<rparr>
   \<and> \<not> 1 \<le> Size (fst (reverseMapByRange 0 0
          \<lparr>ContainerID = 1, HostID = 100000, Size = 65536\<rparr>
          \<lparr>ContainerID = 1, HostID = 100000, Size = 65536\<rparr>) ! 0)"
  by (simp add: reverseMapByRange_def)

text \<open>
  C3, amended. Each table on its own, whatever the other target and range are: for a
  target of at least 1 and a range size of at least 65536, in both branches,
  \<open>reverseMapByRange\<close> produces a table (three entries when the target is below the
  range size, two otherwise) and every entry of it has size at least 1. This holds for
  the UID table under the conditions on the target UID and the sub-UID range, and for
  the GID table under those on the target GID and the sub-GID range.
\<close>

theorem reverseMapByRange_sizes_positive:
  "(1 \<le> t \<and> 65536 \<le> Size subuidRange \<longrightarrow>
      length (fst (reverseMapByRange t g subuidRange subgidRange))
        = (if t < Size subuidRange then 3 else 2)
    \<and> (\<forall>e \<in> set (fst (reverseMapByRange t g subuidRange subgidRange)). 1 \<le> Size e))
   \<and> (1 \<le> g \<and> 65536 \<le> Size subgidRange \<longrightarrow>
      length (snd (reverseMapByRange t g subuidRange subgidRange))
        = (if g < Size subgidRange then 3 else 2)
    \<and> (\<forall>e \<in> set (snd (reverseMapByRange t g subuidRange subgidRange)). 1 \<le> Size e))"
proof -
  have pos: "1 \<le> r - x" if "x < r" for x r :: uint32
  proof -
    have "unat (r - x) = unat r - unat x" using that by (rule unat_diff_below)
    moreover have "unat x < unat r" using that by (simp add: word_less_nat_alt)
    ultimately show ?thesis by (simp add: word_le_nat_alt)
  qed
  have big: "1 \<le> r" if "65536 \<le> r" for r :: uint32
    using that by (simp add: word_le_nat_alt)
  show ?thesis
    using pos [of t "Size subuidRange"] pos [of g "Size subgidRange"]
      big [of "Size subuidRange"] big [of "Size subgidRange"]
    by (simp add: reverseMapByRange_def Let_def)
qed

theorem reverseMapByRange_sizes_positive_witness:
  "(1 :: uint32) \<le> 1000 \<and> \<not> (1 :: uint32) \<le> 0
   \<and> (65536 :: uint32) \<le> Size \<lparr>ContainerID = 1, HostID = 100000, Size = 65536\<rparr>
   \<and> length (fst (reverseMapByRange 1000 0
          \<lparr>ContainerID = 1, HostID = 100000, Size = 65536\<rparr>
          \<lparr>ContainerID = 1, HostID = 100000, Size = 65536\<rparr>)) = 3
   \<and> 1 \<le> Size (fst (reverseMapByRange 1000 0
          \<lparr>ContainerID = 1, HostID = 100000, Size = 65536\<rparr>
          \<lparr>ContainerID = 1, HostID = 100000, Size = 65536\<rparr>) ! 0)
   \<and> 1 \<le> Size (fst (reverseMapByRange 1000 0
          \<lparr>ContainerID = 1, HostID = 100000, Size = 65536\<rparr>
          \<lparr>ContainerID = 1, HostID = 100000, Size = 65536\<rparr>) ! 1)
   \<and> 1 \<le> Size (fst (reverseMapByRange 1000 0
          \<lparr>ContainerID = 1, HostID = 100000, Size = 65536\<rparr>
          \<lparr>ContainerID = 1, HostID = 100000, Size = 65536\<rparr>) ! 2)
   \<and> length (snd (reverseMapByRange 0 70000
          \<lparr>ContainerID = 1, HostID = 100000, Size = 65536\<rparr>
          \<lparr>ContainerID = 1, HostID = 100000, Size = 65536\<rparr>)) = 2
   \<and> 1 \<le> Size (snd (reverseMapByRange 0 70000
          \<lparr>ContainerID = 1, HostID = 100000, Size = 65536\<rparr>
          \<lparr>ContainerID = 1, HostID = 100000, Size = 65536\<rparr>) ! 0)
   \<and> 1 \<le> Size (snd (reverseMapByRange 0 70000
          \<lparr>ContainerID = 1, HostID = 100000, Size = 65536\<rparr>
          \<lparr>ContainerID = 1, HostID = 100000, Size = 65536\<rparr>) ! 1)"
proof -
  let ?r = "\<lparr>ContainerID = 1, HostID = 100000, Size = 65536 :: uint32\<rparr>"
  have h: "(1 :: uint32) \<le> 1000 \<and> 65536 \<le> Size ?r" by simp
  have h': "(1 :: uint32) \<le> 70000 \<and> 65536 \<le> Size ?r" by simp
  from reverseMapByRange_sizes_positive [of 1000 ?r 0 ?r] h
  have ul: "length (fst (reverseMapByRange 1000 0 ?r ?r)) = 3"
    and ua: "\<forall>e \<in> set (fst (reverseMapByRange 1000 0 ?r ?r)). 1 \<le> Size e"
    by simp_all
  from reverseMapByRange_sizes_positive [of 0 ?r 70000 ?r] h'
  have gl: "length (snd (reverseMapByRange 0 70000 ?r ?r)) = 2"
    and ga: "\<forall>e \<in> set (snd (reverseMapByRange 0 70000 ?r ?r)). 1 \<le> Size e"
    by simp_all
  have "\<forall>i < 3. 1 \<le> Size (fst (reverseMapByRange 1000 0 ?r ?r) ! i)"
    using ul ua by (metis nth_mem)
  moreover have "\<forall>i < 2. 1 \<le> Size (snd (reverseMapByRange 0 70000 ?r ?r) ! i)"
    using gl ga by (metis nth_mem)
  ultimately show ?thesis using ul gl by simp
qed

text \<open>
  C4. \<open>getReverseUserMaps\<close> returns an error, and no tables, whenever the sub-UID range
  or the sub-GID range that the lookup yields is smaller than 65536; when it returns
  tables, both lookups succeeded with sizes of at least 65536 and the tables are those
  of \<open>reverseMapByRange\<close>; and with two such ranges it does return them.
\<close>

theorem getReverseUserMaps_range_floor:
  "(((\<exists>ur. getIDRange SubUIDFile hostUID = Inr ur \<and> Size ur < 65536)
      \<or> (\<exists>gr. getIDRange SubGIDFile hostUID = Inr gr \<and> Size gr < 65536))
     \<longrightarrow> (\<exists>err. getReverseUserMaps getIDRange hostUID t g = Inl err))
   \<and> (\<forall>maps. getReverseUserMaps getIDRange hostUID t g = Inr maps \<longrightarrow>
         (\<exists>ur gr. getIDRange SubUIDFile hostUID = Inr ur
                 \<and> getIDRange SubGIDFile hostUID = Inr gr
                 \<and> 65536 \<le> Size ur \<and> 65536 \<le> Size gr
                 \<and> maps = reverseMapByRange t g ur gr))
   \<and> (\<forall>ur gr. getIDRange SubUIDFile hostUID = Inr ur
               \<and> getIDRange SubGIDFile hostUID = Inr gr
               \<and> 65536 \<le> Size ur \<and> 65536 \<le> Size gr \<longrightarrow>
         getReverseUserMaps getIDRange hostUID t g = Inr (reverseMapByRange t g ur gr))"
  by (auto simp: getReverseUserMaps_def not_less split: sum.splits)

theorem getReverseUserMaps_range_floor_witness:
  "getReverseUserMaps
      (\<lambda>f u. Inr \<lparr>ContainerID = 1, HostID = 100000,
                   Size = (if f = SubUIDFile then 65536 else 65535)\<rparr>)
      1001 1000 1000 = Inl (RangeSizeTooSmall 65535)
   \<and> getReverseUserMaps
      (\<lambda>f u. Inr \<lparr>ContainerID = 1, HostID = 100000, Size = 65536\<rparr>) 1001 1000 1000 =
       Inr ([\<lparr>ContainerID = 0, HostID = 1, Size = 1000\<rparr>,
             \<lparr>ContainerID = 1000, HostID = 0, Size = 1\<rparr>,
             \<lparr>ContainerID = 1001, HostID = 1001, Size = 64536\<rparr>],
            [\<lparr>ContainerID = 0, HostID = 1, Size = 1000\<rparr>,
             \<lparr>ContainerID = 1000, HostID = 0, Size = 1\<rparr>,
             \<lparr>ContainerID = 1001, HostID = 1001, Size = 64536\<rparr>])"
  using getReverseUserMaps_range_floor [of
      "\<lambda>f u. Inr \<lparr>ContainerID = 1, HostID = 100000,
                   Size = (if f = SubUIDFile then 65536 else 65535)\<rparr>"
      1001 1000 1000]
    getReverseUserMaps_range_floor [of
      "\<lambda>f u. Inr \<lparr>ContainerID = 1, HostID = 100000, Size = 65536\<rparr>" 1001 1000 1000]
  by (simp add: getReverseUserMaps_def reverseMapByRange_def)

section \<open>Properties of the capability sets\<close>

lemma set_RemoveDuplicated_from:
  "set (RemoveDuplicated_from seen cs) = set seen \<union> set cs"
  by (induction seen cs rule: RemoveDuplicated_from.induct) auto

lemma distinct_RemoveDuplicated_from:
  "distinct seen \<Longrightarrow> distinct (RemoveDuplicated_from seen cs)"
  by (induction seen cs rule: RemoveDuplicated_from.induct) auto

lemma set_RemoveDuplicated: "set (RemoveDuplicated cs) = set cs"
  by (simp add: RemoveDuplicated_def set_RemoveDuplicated_from)

lemma distinct_RemoveDuplicated: "distinct (RemoveDuplicated cs)"
  by (simp add: RemoveDuplicated_def distinct_RemoveDuplicated_from)

lemma set_Without: "set (Without xs ex) = set xs - set ex"
  by (auto simp: Without_def)

lemma distinct_Without: "distinct xs \<Longrightarrow> distinct (Without xs ex)"
  by (simp add: Without_def)

text \<open>
  C5. With base capabilities \<open>base\<close>, and \<open>add\<close> and \<open>drop\<close> the known names of the add
  and drop lists: for target UID 0, Permitted, Effective and Bounding are all the
  deduplicated \<open>base @ add\<close> without \<open>drop\<close>, and Inheritable and Ambient are empty; for
  any other target UID, Permitted, Effective, Inheritable and Ambient are all
  \<open>add\<close> without \<open>drop\<close>, Bounding is as before, and the former is a subset of it. As
  sets, Bounding is \<open>(base \<union> add) - drop\<close>, without duplicates, and the explicit set
  is \<open>add - drop\<close>.
\<close>

theorem getProcessCapabilities_sets:
  assumes "getBaseCapabilities l h = Inr base"
  shows "(targetUID = 0 \<longrightarrow>
           (\<exists>c. getProcessCapabilities l h targetUID = Inr c
               \<and> Permitted c = Effective c \<and> Effective c = Bounding c
               \<and> Bounding c =
                   Without (RemoveDuplicated (base @ fst (Split h (AddCaps (cfg l)))))
                     (fst (Split h (DropCaps (cfg l))))
               \<and> Inheritable c = [] \<and> Ambient c = []))
       \<and> (targetUID \<noteq> 0 \<longrightarrow>
           (\<exists>c. getProcessCapabilities l h targetUID = Inr c
               \<and> Permitted c = Effective c \<and> Effective c = Inheritable c
               \<and> Inheritable c = Ambient c
               \<and> Ambient c =
                   Without (fst (Split h (AddCaps (cfg l)))) (fst (Split h (DropCaps (cfg l))))
               \<and> Bounding c =
                   Without (RemoveDuplicated (base @ fst (Split h (AddCaps (cfg l)))))
                     (fst (Split h (DropCaps (cfg l))))
               \<and> set (Permitted c) \<subseteq> set (Bounding c)))
       \<and> distinct (Without (RemoveDuplicated (base @ fst (Split h (AddCaps (cfg l)))))
                     (fst (Split h (DropCaps (cfg l)))))
       \<and> set (Without (RemoveDuplicated (base @ fst (Split h (AddCaps (cfg l)))))
                     (fst (Split h (DropCaps (cfg l)))))
           = (set base \<union> set (fst (Split h (AddCaps (cfg l)))))
               - set (fst (Split h (DropCaps (cfg l))))
       \<and> set (Without (fst (Split h (AddCaps (cfg l)))) (fst (Split h (DropCaps (cfg l)))))
           = set (fst (Split h (AddCaps (cfg l)))) - set (fst (Split h (DropCaps (cfg l))))"
proof -
  let ?add = "fst (Split h (AddCaps (cfg l)))"
  let ?drop = "fst (Split h (DropCaps (cfg l)))"
  have sub: "set (Without ?add ?drop) \<subseteq> set (Without (RemoveDuplicated (base @ ?add)) ?drop)"
    by (auto simp: set_Without set_RemoveDuplicated)
  have d: "distinct (Without (RemoveDuplicated (base @ ?add)) ?drop)"
    by (rule distinct_Without) (rule distinct_RemoveDuplicated)
  have s: "set (Without (RemoveDuplicated (base @ ?add)) ?drop)
             = (set base \<union> set ?add) - set ?drop"
    by (simp add: set_Without set_RemoveDuplicated)
  show ?thesis
    using assms sub d s by (simp add: getProcessCapabilities_def Let_def set_Without)
qed

theorem getProcessCapabilities_sets_witness:
  "getBaseCapabilities example_launcher example_host
     = Inr [''CAP_CHOWN'', ''CAP_KILL'', ''CAP_SETUID'']
   \<and> getProcessCapabilities example_launcher example_host 0 =
       Inr \<lparr>Bounding = [''CAP_CHOWN'', ''CAP_SETUID'', ''CAP_NET_RAW''],
            Effective = [''CAP_CHOWN'', ''CAP_SETUID'', ''CAP_NET_RAW''],
            Inheritable = [],
            Permitted = [''CAP_CHOWN'', ''CAP_SETUID'', ''CAP_NET_RAW''],
            Ambient = []\<rparr>
   \<and> getProcessCapabilities example_launcher example_host 1000 =
       Inr \<lparr>Bounding = [''CAP_CHOWN'', ''CAP_SETUID'', ''CAP_NET_RAW''],
            Effective = [''CAP_NET_RAW''],
            Inheritable = [''CAP_NET_RAW''],
            Permitted = [''CAP_NET_RAW''],
            Ambient = [''CAP_NET_RAW'']\<rparr>"
proof -
  have base: "getBaseCapabilities example_launcher example_host
                = Inr [''CAP_CHOWN'', ''CAP_KILL'', ''CAP_SETUID'']"
    by (simp add: getBaseCapabilities_def example_launcher_def example_host_def)
  show ?thesis
    using base getProcessCapabilities_sets [OF base, of 0]
      getProcessCapabilities_sets [OF base, of 1000]
    by (simp add: getProcessCapabilities_def RemoveDuplicated_def Without_def
        example_launcher_def example_host_def Let_def)
qed

section \<open>Properties of the process arguments\<close>

text \<open>
  C6. With no explicit arguments, \<open>getProcessArgs\<close> returns just the explicit process
  name when one is given (the image's default command is not appended), and the image's
  entrypoint followed by its default command when none is given. It is what
  \<open>getProcess\<close> uses when the image is not a native SIF and the action is not
  \<open>shell\<close>.
\<close>

theorem getProcessArgs_default_mode:
  "(Process ep \<noteq> '''' \<and> Args ep = [] \<longrightarrow> getProcessArgs imageSpec ep = [Process ep])
   \<and> (Process ep = '''' \<and> Args ep = [] \<longrightarrow>
        getProcessArgs imageSpec ep = Entrypoint (Config imageSpec) @ Cmd (Config imageSpec))
   \<and> (\<not> nativeSIF l \<and> Action ep \<noteq> ''shell'' \<longrightarrow>
        getProcess_args l h imageSpec ep = Inr (getProcessArgs imageSpec ep))"
  by (simp add: getProcessArgs_def getProcess_args_def)

theorem getProcessArgs_default_mode_witness:
  "getProcessArgs example_image example_ep = [''/bin/foo'', ''--flag'']
   \<and> getProcessArgs example_image (example_ep\<lparr>Process := ''/bin/bar''\<rparr>) = [''/bin/bar'']
   \<and> getProcess_args example_launcher example_host example_image example_ep
        = Inr [''/bin/foo'', ''--flag'']"
  using getProcessArgs_default_mode [of example_ep example_image example_launcher example_host]
    getProcessArgs_default_mode [of "example_ep\<lparr>Process := ''/bin/bar''\<rparr>" example_image]
  by (simp add: example_ep_def example_image_def example_launcher_def)

section \<open>Properties of the namespace composition\<close>

text \<open>
  C9. From the default namespaces (IPC, PID, Mount, in this order, no kind twice),
  \<open>addNamespaces\<close> with only the PID and IPC flags set leaves the list as it is and
  returns no error. For any flags and any starting list, the namespaces are appended
  in the order Network, User, UTS; the User namespace is appended only when the flag is
  set and \<open>Getuid\<close> yields 0; when \<open>Getuid\<close> fails the call returns its error before
  it reaches UTS.
\<close>

theorem addNamespaces_order:
  "fst (addNamespaces rh defaultNamespaces
          \<lparr>IPC = True, Net = False, PID = True, User = False, UTS = False\<rparr>) = defaultNamespaces
   \<and> snd (snd (addNamespaces rh defaultNamespaces
          \<lparr>IPC = True, Net = False, PID = True, User = False, UTS = False\<rparr>)) = None
   \<and> map Type defaultNamespaces = [IPCNamespace, PIDNamespace, MountNamespace]
   \<and> fst (addNamespaces rh namespaces ns) =
       namespaces
       @ (if Net ns then [\<lparr>Type = NetworkNamespace, Path = ''''\<rparr>] else [])
       @ (if User ns \<and> Getuid rh = Inr 0 then [\<lparr>Type = UserNamespace, Path = ''''\<rparr>] else [])
       @ (if UTS ns \<and> \<not> (User ns \<and> isl (Getuid rh))
          then [\<lparr>Type = UTSNamespace, Path = ''''\<rparr>] else [])
   \<and> snd (snd (addNamespaces rh namespaces ns)) =
       (if User ns then (case Getuid rh of Inl err \<Rightarrow> Some err | Inr uid \<Rightarrow> None) else None)"
  by (auto simp: addNamespaces_def Let_def defaultNamespaces_def split: sum.splits)

theorem addNamespaces_order_witness:
  "fst (addNamespaces \<lparr>Getenv_UIDEnv = ''0'', Atoi = (\<lambda>s. if s = ''0'' then Inr 0 else Inl (External s)),
                       Geteuid = 1000\<rparr>
          defaultNamespaces \<lparr>IPC = True, Net = True, PID = True, User = True, UTS = True\<rparr>) =
     [\<lparr>Type = IPCNamespace, Path = ''''\<rparr>, \<lparr>Type = PIDNamespace, Path = ''''\<rparr>,
      \<lparr>Type = MountNamespace, Path = ''''\<rparr>, \<lparr>Type = NetworkNamespace, Path = ''''\<rparr>,
      \<lparr>Type = UserNamespace, Path = ''''\<rparr>, \<lparr>Type = UTSNamespace, Path = ''''\<rparr>]
   \<and> fst (addNamespaces \<lparr>Getenv_UIDEnv = '''', Atoi = (\<lambda>s. Inl (External s)), Geteuid = 1000\<rparr>
          defaultNamespaces \<lparr>IPC = False, Net = False, PID = False, User = True, UTS = True\<rparr>) =
     [\<lparr>Type = IPCNamespace, Path = ''''\<rparr>, \<lparr>Type = PIDNamespace, Path = ''''\<rparr>,
      \<lparr>Type = MountNamespace, Path = ''''\<rparr>, \<lparr>Type = UTSNamespace, Path = ''''\<rparr>]
   \<and> addNamespaces \<lparr>Getenv_UIDEnv = '''', Atoi = (\<lambda>s. Inl (External s)), Geteuid = 1000\<rparr>
          defaultNamespaces \<lparr>IPC = True, Net = False, PID = True, User = False, UTS = False\<rparr> =
     (defaultNamespaces, [notice_ipc, notice_pid], None)"
  using addNamespaces_order [of
      "\<lparr>Getenv_UIDEnv = ''0'', Atoi = (\<lambda>s. if s = ''0'' then Inr 0 else Inl (External s)),
        Geteuid = 1000\<rparr>"
      defaultNamespaces "\<lparr>IPC = True, Net = True, PID = True, User = True, UTS = True\<rparr>"]
    addNamespaces_order [of
      "\<lparr>Getenv_UIDEnv = '''', Atoi = (\<lambda>s. Inl (External s)), Geteuid = 1000\<rparr>"
      defaultNamespaces "\<lparr>IPC = False, Net = False, PID = False, User = True, UTS = True\<rparr>"]
  by (simp add: Getuid_def defaultNamespaces_def addNamespaces_def)

section \<open>Properties of the environment\<close>

lemma Contains_sublist: "Contains s sub \<longleftrightarrow> sublist sub s"
  by (induction s) (simp_all add: sublist_Cons_right)

lemma env_get_SetProcessEnv_same: "env_get (SetProcessEnv k v env) k = Some v"
  by (induction env) simp_all





lemma fold_image_appendPath [simp]:
  "appendPath (fold image_env_step es st) = appendPath st"
  by (induction es arbitrary: st) (simp_all add: image_env_step_def Let_def)

lemma fold_image_prependPath [simp]:
  "prependPath (fold image_env_step es st) = prependPath st"
  by (induction es arbitrary: st) (simp_all add: image_env_step_def Let_def)




lemma fold_runtime_ldLibraryPath:
  assumes "\<forall>v. (''LD_LIBRARY_PATH'', v) \<in> set kvs \<longrightarrow> v = c"
    and "ldLibraryPath st = c \<or> (''LD_LIBRARY_PATH'', c) \<in> set kvs"
  shows "ldLibraryPath (fold runtime_env_step kvs st) = c"
  using assms
proof (induction kvs arbitrary: st)
  case Nil
  then show ?case by simp
next
  case (Cons kv kvs)
  obtain k v where kv: "kv = (k, v)" by (cases kv)
  show ?case
  proof (cases "k = ''LD_LIBRARY_PATH''")
    case True
    with Cons.prems kv have "v = c" by simp
    with True kv have "ldLibraryPath (runtime_env_step kv st) = c"
      by (simp add: runtime_env_step_def)
    with Cons.IH [of "runtime_env_step kv st"] Cons.prems(1) show ?thesis by simp
  next
    case False
    with kv have "ldLibraryPath (runtime_env_step kv st) = ldLibraryPath st"
      by (simp add: runtime_env_step_def)
    with Cons.IH [of "runtime_env_step kv st"] Cons.prems False kv show ?thesis by auto
  qed
qed

lemma apptainerLibs_facts:
  "apptainerLibs \<noteq> []" "CHR '':'' \<notin> set apptainerLibs" "hd apptainerLibs \<noteq> CHR '':''"
  "\<not> Contains [] apptainerLibs"
  by (simp_all add: apptainerLibs_def)

lemma env_get_getProcessEnv_LD:
  "env_get (getProcessEnv imageSpec runtimeEnv) ''LD_LIBRARY_PATH'' =
     Some (let ld0 = ldLibraryPath
                       (fold runtime_env_step runtimeEnv
                          (fold image_env_step (Config_Env (Config imageSpec))
                             \<lparr>path = '''', appendPath = '''', prependPath = '''',
                              ldLibraryPath = '''', genv = Config_Env (Config imageSpec)\<rparr>))
           in if \<not> Contains ld0 apptainerLibs
              then TrimPrefix (ld0 @ '':'' @ apptainerLibs) '':'' else ld0)"
  by (simp add: getProcessEnv_def Let_def env_get_SetProcessEnv_same)

lemma path_elements_nonempty: "path_elements s \<noteq> []"
  by (induction s) (auto split: list.splits)

lemma path_elements_append:
  "path_elements (xs @ CHR '':'' # ys) = path_elements xs @ path_elements ys"
proof (induction xs)
  case Nil
  then show ?case by simp
next
  case (Cons c cs)
  obtain e es where "path_elements cs = e # es"
    using path_elements_nonempty [of cs] by (cases "path_elements cs") auto
  with Cons show ?case by simp
qed

lemma path_elements_single: "CHR '':'' \<notin> set p \<Longrightarrow> path_elements p = [p]"
  by (induction p) auto

lemma path_elements_head_prefix: "path_elements s = e # es \<Longrightarrow> prefix e s"
proof (induction s arbitrary: e es)
  case Nil
  then show ?case by simp
next
  case (Cons c cs)
  obtain e' es' where p: "path_elements cs = e' # es'"
    using path_elements_nonempty [of cs] by (cases "path_elements cs") auto
  with Cons.IH have "prefix e' cs" by blast
  with Cons.prems p show ?case by (auto split: if_splits)
qed

lemma path_element_sublist: "e \<in> set (path_elements s) \<Longrightarrow> sublist e s"
proof (induction s arbitrary: e)
  case Nil
  then show ?case by simp
next
  case (Cons c cs)
  obtain e' es' where p: "path_elements cs = e' # es'"
    using path_elements_nonempty [of cs] by (cases "path_elements cs") auto
  have tl: "sublist x (c # cs)" if "x \<in> set (path_elements cs)" for x
    using Cons.IH [OF that] by (simp add: sublist_Cons_right)
  show ?case
  proof (cases "c = CHR '':''")
    case True
    with Cons.prems have "e = [] \<or> e \<in> set (path_elements cs)" by auto
    then show ?thesis using tl by auto
  next
    case False
    with Cons.prems p have "e = c # e' \<or> e \<in> set es'" by auto
    then show ?thesis
    proof
      assume "e = c # e'"
      moreover have "prefix e' cs" using p by (rule path_elements_head_prefix)
      ultimately show ?thesis by (simp add: sublist_Cons_right)
    next
      assume "e \<in> set es'"
      with p have "e \<in> set (path_elements cs)" by simp
      then show ?thesis by (rule tl)
    qed
  qed
qed

lemma count_list_pos: "x \<in> set xs \<Longrightarrow> 0 < count_list xs x"
  by (induction xs) auto

lemma not_path_element:
  assumes "\<not> Contains s p"
  shows "p \<notin> set (path_elements s)"
  using assms path_element_sublist [of p s] by (auto simp: Contains_sublist)

lemma count_path_elements_appended:
  assumes "\<not> Contains s apptainerLibs"
  shows "count_list (path_elements (TrimPrefix (s @ '':'' @ apptainerLibs) '':''))
           apptainerLibs = 1"
proof -
  have single: "path_elements apptainerLibs = [apptainerLibs]"
    using apptainerLibs_facts(2) by (rule path_elements_single)
  have none: "count_list (path_elements s) apptainerLibs = 0"
    using not_path_element [OF assms] by (simp add: count_list_0_iff)
  show ?thesis
  proof (cases s)
    case Nil
    then show ?thesis by (simp add: TrimPrefix_def single)
  next
    case (Cons c r)
    show ?thesis
    proof (cases "c = CHR '':''")
      case True
      with Cons have "path_elements s = [] # path_elements r" by simp
      with none apptainerLibs_facts(1)
      have "count_list (path_elements r) apptainerLibs = 0"
        by (simp split: if_splits)
      moreover have "TrimPrefix (s @ '':'' @ apptainerLibs) '':'' = r @ CHR '':'' # apptainerLibs"
        using Cons True by (simp add: TrimPrefix_def)
      ultimately show ?thesis
        by (simp add: path_elements_append single)
    next
      case False
      with Cons have "TrimPrefix (s @ '':'' @ apptainerLibs) '':'' = s @ CHR '':'' # apptainerLibs"
        by (simp add: TrimPrefix_def)
      with none show ?thesis
        by (simp add: path_elements_append single)
    qed
  qed
qed

lemma split_key_prefix:
  assumes "CHR ''='' \<in> set e"
  shows "prefix (takeWhile (\<lambda>c. c \<noteq> CHR ''='') e @ ''='') e"
proof -
  have "dropWhile (\<lambda>c. c \<noteq> CHR ''='') e \<noteq> []"
    using assms by (simp add: dropWhile_eq_Nil_conv)
  then obtain r where r: "dropWhile (\<lambda>c. c \<noteq> CHR ''='') e = CHR ''='' # r"
    using hd_dropWhile [of "\<lambda>c. c \<noteq> CHR ''=''" e]
    by (cases "dropWhile (\<lambda>c. c \<noteq> CHR ''='') e") auto
  have "e = takeWhile (\<lambda>c. c \<noteq> CHR ''='') e @ dropWhile (\<lambda>c. c \<noteq> CHR ''='') e"
    by simp
  with r have "e = (takeWhile (\<lambda>c. c \<noteq> CHR ''='') e @ ''='') @ r" by simp
  then show ?thesis by (metis prefixI)
qed

lemma image_env_step_other:
  assumes "\<not> prefix ''LD_LIBRARY_PATH='' e"
  shows "ldLibraryPath (image_env_step e st) = ldLibraryPath st"
proof (cases "CHR ''='' \<in> set e")
  case True
  from split_key_prefix [OF True] assms
  have "takeWhile (\<lambda>c. c \<noteq> CHR ''='') e \<noteq> ''LD_LIBRARY_PATH''" by auto
  with True show ?thesis
    by (simp add: image_env_step_def SplitN_eq2_def Let_def)
next
  case False
  then show ?thesis
    by (simp add: image_env_step_def SplitN_eq2_def Let_def)
qed

lemma image_env_step_declared:
  "ldLibraryPath (image_env_step (''LD_LIBRARY_PATH='' @ x) st) = x"
proof -
  have "SplitN_eq2 (''LD_LIBRARY_PATH'' @ CHR ''='' # x) = [''LD_LIBRARY_PATH'', x]"
    unfolding SplitN_eq2_def by simp
  then show ?thesis
    by (simp add: image_env_step_def Let_def)
qed

lemma fold_image_ld_unchanged:
  "\<forall>e \<in> set es. \<not> prefix ''LD_LIBRARY_PATH='' e \<Longrightarrow>
     ldLibraryPath (fold image_env_step es st) = ldLibraryPath st"
  by (induction es arbitrary: st) (simp_all add: image_env_step_other)

lemma fold_image_ld_last:
  assumes "\<forall>e \<in> set es'. \<not> prefix ''LD_LIBRARY_PATH='' e"
  shows "ldLibraryPath (fold image_env_step (es @ (''LD_LIBRARY_PATH='' @ x) # es') st) = x"
  using fold_image_ld_unchanged [OF assms] by (simp add: image_env_step_declared [simplified])

lemma fold_runtime_ld_unchanged:
  "''LD_LIBRARY_PATH'' \<notin> fst ` set kvs \<Longrightarrow>
     ldLibraryPath (fold runtime_env_step kvs st) = ldLibraryPath st"
  by (induction kvs arbitrary: st) (auto simp: runtime_env_step_def Let_def)

text \<open>
  C8, as stated, fails: an image that declares the library path twice in
  \<open>LD_LIBRARY_PATH\<close> keeps it twice.
\<close>

theorem getProcessEnv_LD_twice_counterexample:
  "env_get
     (getProcessEnv
        \<lparr>Config = \<lparr>Config_User = '''',
                    Config_Env = [''LD_LIBRARY_PATH=/.singularity.d/libs:/.singularity.d/libs''],
                    Entrypoint = [], Cmd = []\<rparr>\<rparr> [])
     ''LD_LIBRARY_PATH'' = Some ''/.singularity.d/libs:/.singularity.d/libs''
   \<and> occurrences ''/.singularity.d/libs:/.singularity.d/libs'' apptainerLibs = 2
   \<and> count_list (path_elements ''/.singularity.d/libs:/.singularity.d/libs'') apptainerLibs = 2"
  by code_simp

text \<open>
  C8, amended. Let \<open>ld0\<close> be the \<open>LD_LIBRARY_PATH\<close> value in effect before the fix-up:
  the runtime map's value when it has the key, else the value of the image's last
  \<open>LD_LIBRARY_PATH=\<close> entry, else the empty string. For every image environment and
  every runtime environment the list returned by \<open>getProcessEnv\<close> has an
  \<open>LD_LIBRARY_PATH\<close> entry, and unless \<open>ld0\<close> holds the text of the library bind path
  only inside longer path elements, that entry has \<open>/.singularity.d/libs\<close> as a
  colon-separated path element exactly \<open>max 1 n\<close> times, \<open>n\<close> being the number of
  times it is an element of \<open>ld0\<close>: exactly once when it was absent (it is appended,
  after a colon unless \<open>ld0\<close> is empty) or present once, and \<open>n\<close> times when it was
  present \<open>n\<close> times (the value is then unchanged).
\<close>

theorem getProcessEnv_LD_LIBRARY_PATH:
  "\<exists>ld0 v.
      env_get (getProcessEnv imageSpec runtimeEnv) ''LD_LIBRARY_PATH'' = Some v
    \<and> (\<forall>v0. (''LD_LIBRARY_PATH'', v0) \<in> set runtimeEnv
            \<and> (\<forall>v'. (''LD_LIBRARY_PATH'', v') \<in> set runtimeEnv \<longrightarrow> v' = v0)
          \<longrightarrow> ld0 = v0)
    \<and> (''LD_LIBRARY_PATH'' \<notin> fst ` set runtimeEnv \<longrightarrow>
          (\<forall>es x es'. Config_Env (Config imageSpec) = es @ (''LD_LIBRARY_PATH='' @ x) # es'
                     \<and> (\<forall>e \<in> set es'. \<not> prefix ''LD_LIBRARY_PATH='' e)
                   \<longrightarrow> ld0 = x)
        \<and> ((\<forall>e \<in> set (Config_Env (Config imageSpec)). \<not> prefix ''LD_LIBRARY_PATH='' e)
             \<longrightarrow> ld0 = ''''))
    \<and> (apptainerLibs \<in> set (path_elements ld0) \<longrightarrow> v = ld0)
    \<and> (\<not> Contains ld0 apptainerLibs \<longrightarrow> v = TrimPrefix (ld0 @ '':'' @ apptainerLibs) '':'')
    \<and> ((Contains ld0 apptainerLibs \<longrightarrow> apptainerLibs \<in> set (path_elements ld0)) \<longrightarrow>
          count_list (path_elements v) apptainerLibs
            = max 1 (count_list (path_elements ld0) apptainerLibs))"
proof -
  let ?env = "Config_Env (Config imageSpec)"
  let ?st0 = "\<lparr>path = '''', appendPath = '''', prependPath = '''', ldLibraryPath = '''',
                genv = ?env\<rparr>"
  let ?st1 = "fold image_env_step ?env ?st0"
  let ?ld0 = "ldLibraryPath (fold runtime_env_step runtimeEnv ?st1)"
  let ?v = "if \<not> Contains ?ld0 apptainerLibs
            then TrimPrefix (?ld0 @ '':'' @ apptainerLibs) '':'' else ?ld0"
  have get: "env_get (getProcessEnv imageSpec runtimeEnv) ''LD_LIBRARY_PATH'' = Some ?v"
    by (simp add: env_get_getProcessEnv_LD Let_def)
  have rt: "?ld0 = v0"
    if "(''LD_LIBRARY_PATH'', v0) \<in> set runtimeEnv
        \<and> (\<forall>v'. (''LD_LIBRARY_PATH'', v') \<in> set runtimeEnv \<longrightarrow> v' = v0)" for v0
    using that fold_runtime_ldLibraryPath [of runtimeEnv v0 ?st1] by blast
  have img: "?ld0 = x"
    if "''LD_LIBRARY_PATH'' \<notin> fst ` set runtimeEnv"
      and "?env = es @ (''LD_LIBRARY_PATH='' @ x) # es'
           \<and> (\<forall>e \<in> set es'. \<not> prefix ''LD_LIBRARY_PATH='' e)" for es x es'
  proof -
    from that(2) have e: "?env = es @ (''LD_LIBRARY_PATH='' @ x) # es'"
      and n: "\<forall>e \<in> set es'. \<not> prefix ''LD_LIBRARY_PATH='' e"
      by blast+
    have a: "?ld0 = ldLibraryPath ?st1"
      using that(1) by (rule fold_runtime_ld_unchanged)
    have "ldLibraryPath
            (fold image_env_step (es @ (''LD_LIBRARY_PATH='' @ x) # es') ?st0) = x"
      using n by (rule fold_image_ld_last)
    with a e show ?thesis by simp
  qed
  have none: "?ld0 = ''''"
    if "''LD_LIBRARY_PATH'' \<notin> fst ` set runtimeEnv"
      and "\<forall>e \<in> set ?env. \<not> prefix ''LD_LIBRARY_PATH='' e"
  proof -
    have "?ld0 = ldLibraryPath ?st1"
      using that(1) by (rule fold_runtime_ld_unchanged)
    also have "\<dots> = ldLibraryPath ?st0"
      using that(2) by (rule fold_image_ld_unchanged)
    finally show ?thesis by simp
  qed
  have elem: "?v = ?ld0" if "apptainerLibs \<in> set (path_elements ?ld0)"
  proof -
    have "Contains ?ld0 apptainerLibs"
      using that not_path_element [of ?ld0 apptainerLibs] by blast
    then show ?thesis by simp
  qed
  have absent: "?v = TrimPrefix (?ld0 @ '':'' @ apptainerLibs) '':''"
    if "\<not> Contains ?ld0 apptainerLibs"
    using that by simp
  have cnt: "count_list (path_elements ?v) apptainerLibs
               = max 1 (count_list (path_elements ?ld0) apptainerLibs)"
    if h: "Contains ?ld0 apptainerLibs \<longrightarrow> apptainerLibs \<in> set (path_elements ?ld0)"
  proof (cases "Contains ?ld0 apptainerLibs")
    case True
    with h have m: "apptainerLibs \<in> set (path_elements ?ld0)" by blast
    then have "0 < count_list (path_elements ?ld0) apptainerLibs"
      by (rule count_list_pos)
    with True show ?thesis by simp
  next
    case False
    then have "count_list (path_elements (TrimPrefix (?ld0 @ '':'' @ apptainerLibs) '':''))
                 apptainerLibs = 1"
      by (rule count_path_elements_appended)
    moreover have "count_list (path_elements ?ld0) apptainerLibs = 0"
      using not_path_element [OF False] by (simp add: count_list_0_iff)
    ultimately show ?thesis using False by simp
  qed
  show ?thesis
    by (rule exI [of _ ?ld0], rule exI [of _ ?v])
      (use get rt img none elem absent cnt in blast)
qed

theorem getProcessEnv_LD_LIBRARY_PATH_witness:
  "env_get (getProcessEnv example_image [(''LD_LIBRARY_PATH'', ''/opt/lib'')])
        ''LD_LIBRARY_PATH'' = Some ''/opt/lib:/.singularity.d/libs''
   \<and> count_list (path_elements ''/opt/lib:/.singularity.d/libs'') apptainerLibs = 1
   \<and> env_get (getProcessEnv example_image_ld [(''FOO'', ''bar'')])
        ''LD_LIBRARY_PATH'' = Some ''/.singularity.d/libs:/opt/lib''
   \<and> count_list (path_elements ''/.singularity.d/libs:/opt/lib'') apptainerLibs = 1"
proof -
  let ?rt = "[(''LD_LIBRARY_PATH'', ''/opt/lib'')]"
  let ?rt' = "[(''FOO'', ''bar'')]"
  let ?x = "''/.singularity.d/libs:/opt/lib''"
  from getProcessEnv_LD_LIBRARY_PATH [of example_image ?rt]
  obtain ld0 v where get: "env_get (getProcessEnv example_image ?rt) ''LD_LIBRARY_PATH'' = Some v"
    and rt: "\<forall>v0. (''LD_LIBRARY_PATH'', v0) \<in> set ?rt
                \<and> (\<forall>v'. (''LD_LIBRARY_PATH'', v') \<in> set ?rt \<longrightarrow> v' = v0) \<longrightarrow> ld0 = v0"
    and absent: "\<not> Contains ld0 apptainerLibs \<longrightarrow>
                   v = TrimPrefix (ld0 @ '':'' @ apptainerLibs) '':''"
    and cnt: "(Contains ld0 apptainerLibs \<longrightarrow> apptainerLibs \<in> set (path_elements ld0)) \<longrightarrow>
                count_list (path_elements v) apptainerLibs
                  = max 1 (count_list (path_elements ld0) apptainerLibs)"
    by blast
  have ld0: "ld0 = ''/opt/lib''"
    using rt [rule_format, of "''/opt/lib''"] by simp
  have nc: "\<not> Contains ''/opt/lib'' apptainerLibs" by code_simp
  have tr: "TrimPrefix (''/opt/lib'' @ '':'' @ apptainerLibs) '':''
              = ''/opt/lib:/.singularity.d/libs''"
    by code_simp
  have n0: "count_list (path_elements ''/opt/lib'') apptainerLibs = 0" by code_simp
  have v: "v = ''/opt/lib:/.singularity.d/libs''"
    using absent nc unfolding ld0 tr by blast
  have e1: "count_list (path_elements ''/opt/lib:/.singularity.d/libs'') apptainerLibs
              = max 1 (count_list (path_elements ''/opt/lib'') apptainerLibs)"
    using cnt nc unfolding ld0 v by blast
  have one: "count_list (path_elements ''/opt/lib:/.singularity.d/libs'') apptainerLibs = 1"
    unfolding e1 n0 by simp
  from getProcessEnv_LD_LIBRARY_PATH [of example_image_ld ?rt']
  obtain ld0' v' where
    get': "env_get (getProcessEnv example_image_ld ?rt') ''LD_LIBRARY_PATH'' = Some v'"
    and img: "''LD_LIBRARY_PATH'' \<notin> fst ` set ?rt' \<longrightarrow>
          (\<forall>es x es'. Config_Env (Config example_image_ld)
                         = es @ (''LD_LIBRARY_PATH='' @ x) # es'
                     \<and> (\<forall>e \<in> set es'. \<not> prefix ''LD_LIBRARY_PATH='' e)
                   \<longrightarrow> ld0' = x)
        \<and> ((\<forall>e \<in> set (Config_Env (Config example_image_ld)).
                \<not> prefix ''LD_LIBRARY_PATH='' e)
             \<longrightarrow> ld0' = '''')"
    and elem: "apptainerLibs \<in> set (path_elements ld0') \<longrightarrow> v' = ld0'"
    by blast
  have "''LD_LIBRARY_PATH'' \<notin> fst ` set ?rt'" by simp
  with img have "\<forall>es x es'. Config_Env (Config example_image_ld)
                         = es @ (''LD_LIBRARY_PATH='' @ x) # es'
                     \<and> (\<forall>e \<in> set es'. \<not> prefix ''LD_LIBRARY_PATH='' e)
                   \<longrightarrow> ld0' = x"
    by blast
  from this [rule_format, of "[''PATH=/a'']" ?x "[]"]
  have ld0': "ld0' = ?x" by (simp add: example_image_ld_def)
  have el: "apptainerLibs \<in> set (path_elements ?x)" by code_simp
  have n1: "count_list (path_elements ?x) apptainerLibs = 1" by code_simp
  have v': "v' = ?x" using elem el unfolding ld0' by blast
  from get [unfolded v] one get' [unfolded v'] n1 show ?thesis by blast
qed

section \<open>Properties of the process assembly\<close>

lemma example_rtEnv:
  "getProcess_rtEnv (example_launcher\<lparr>cfg := (cfg example_launcher)\<lparr>NoPrivs := np\<rparr>\<rparr>)
      example_host example_image ''/bundle'' example_ep =
   Inr [''APPTAINER_CONTAINER'' \<mapsto> ''/bundle'', ''APPTAINER_NAME'' \<mapsto> ''img.sif'',
        ''TERM'' \<mapsto> ''xterm'', ''PATH'' \<mapsto> ''/c'', ''FOO'' \<mapsto> ''bar'', ''BAR'' \<mapsto> ''1'',
        ''HOME'' \<mapsto> ''/home/u'']"
proof -
  have "apptainerEnvMap example_host = [''PATH'' \<mapsto> ''/b'', ''FOO'' \<mapsto> ''bar'']"
    by (simp add: apptainerEnvMap_def apptainerEnvMap_step_def example_host_def SplitN_eq2_def
        TrimPrefix_def ApptainerEnvPrefix_def Let_def)
  moreover have "envFileMap example_host ''/env.sh'' = Inr [''BAR'' \<mapsto> ''1'']"
    by (simp add: envFileMap_def envFileMap_step_def example_host_def SplitN_eq2_def Let_def)
  moreover have "LookupEnv_TERM example_host = Some ''xterm''"
    by (simp add: example_host_def)
  ultimately show ?thesis
    by (simp add: getProcess_rtEnv_def example_launcher_def example_image_def example_ep_def
        defaultEnv_def mergeMap_def ApptainerPrefix_def Let_def)
      (rule ext, simp add: map_add_def)
qed

lemma example_getProcess:
  "getProcess (example_launcher\<lparr>cfg := (cfg example_launcher)\<lparr>NoPrivs := np\<rparr>\<rparr>)
      example_host example_image ''/bundle'' example_ep example_user =
   Inr \<lparr>Process_Args = [''/bin/foo'', ''--flag''],
        Process_Capabilities =
          \<lparr>Bounding = (if np then [''CAP_NET_RAW'']
                       else [''CAP_CHOWN'', ''CAP_SETUID'', ''CAP_NET_RAW'']),
           Effective = [''CAP_NET_RAW''], Inheritable = [''CAP_NET_RAW''],
           Permitted = [''CAP_NET_RAW''], Ambient = [''CAP_NET_RAW'']\<rparr>,
        Process_Cwd = ''/home/u'',
        Process_Env = [''PATH=/c'', ''HOME=/home/u'', ''FOO=bar'', ''BAR=1'', ''TERM=xterm'',
                       ''APPTAINER_NAME=img.sif'', ''APPTAINER_CONTAINER=/bundle'',
                       ''LD_LIBRARY_PATH=/.singularity.d/libs''],
        NoNewPrivileges = np,
        Process_User = example_user,
        Terminal = False\<rparr>"
proof -
  have caps: "getProcessCapabilities
                (example_launcher\<lparr>cfg := (cfg example_launcher)\<lparr>NoPrivs := np\<rparr>\<rparr>)
                example_host (UID example_user) =
              Inr \<lparr>Bounding = (if np then [''CAP_NET_RAW'']
                               else [''CAP_CHOWN'', ''CAP_SETUID'', ''CAP_NET_RAW'']),
                   Effective = [''CAP_NET_RAW''], Inheritable = [''CAP_NET_RAW''],
                   Permitted = [''CAP_NET_RAW''], Ambient = [''CAP_NET_RAW'']\<rparr>"
    by (simp add: getProcessCapabilities_def getBaseCapabilities_def RemoveDuplicated_def
        Without_def example_launcher_def example_host_def example_user_def Let_def)
  have env: "getProcessEnv example_image
               (range_pairs (range_order example_host)
                  [''APPTAINER_CONTAINER'' \<mapsto> ''/bundle'', ''APPTAINER_NAME'' \<mapsto> ''img.sif'',
                   ''TERM'' \<mapsto> ''xterm'', ''PATH'' \<mapsto> ''/c'', ''FOO'' \<mapsto> ''bar'',
                   ''BAR'' \<mapsto> ''1'', ''HOME'' \<mapsto> ''/home/u'']) =
             [''PATH=/c'', ''HOME=/home/u'', ''FOO=bar'', ''BAR=1'', ''TERM=xterm'',
              ''APPTAINER_NAME=img.sif'', ''APPTAINER_CONTAINER=/bundle'',
              ''LD_LIBRARY_PATH=/.singularity.d/libs'']"
    by (simp add: getProcessEnv_def range_pairs_def example_host_def example_image_def
        image_env_step_def runtime_env_step_def SplitN_eq2_def TrimPrefix_def
        apptainerLibs_def Let_def)
  have cwd: "getProcessCwd (example_launcher\<lparr>cfg := (cfg example_launcher)\<lparr>NoPrivs := np\<rparr>\<rparr>)
               = Inr ''/home/u''"
    by (simp add: getProcessCwd_def example_launcher_def)
  have args: "getProcess_args
                (example_launcher\<lparr>cfg := (cfg example_launcher)\<lparr>NoPrivs := np\<rparr>\<rparr>)
                example_host example_image example_ep = Inr [''/bin/foo'', ''--flag'']"
    by (simp add: getProcess_args_def getProcessArgs_def example_launcher_def
        example_image_def example_ep_def)
  have tty: "getProcessTerminal example_host = False"
    by (simp add: getProcessTerminal_def example_host_def)
  show ?thesis
    by (simp add: getProcess_def example_rtEnv caps env cwd args tty)
qed




text \<open>
  C10. Whenever \<open>getProcess\<close> assembles a process descriptor, its \<open>NoNewPrivileges\<close>
  field is true if and only if the \<open>NoPrivs\<close> option is set; two launches that agree on
  \<open>NoPrivs\<close> agree on the field, whatever else differs.
\<close>

theorem getProcess_NoNewPrivileges:
  "(\<forall>p. getProcess l h imgSpec bundle ep u = Inr p \<longrightarrow> NoNewPrivileges p = NoPrivs (cfg l))
   \<and> (\<forall>p p'. getProcess l h imgSpec bundle ep u = Inr p
            \<and> getProcess l' h' imgSpec' bundle' ep' u' = Inr p'
            \<and> NoPrivs (cfg l') = NoPrivs (cfg l) \<longrightarrow> NoNewPrivileges p' = NoNewPrivileges p)"
  by (auto simp: getProcess_def Let_def split: sum.splits)

theorem getProcess_NoNewPrivileges_witness:
  "(\<exists>p. getProcess (example_launcher\<lparr>cfg := (cfg example_launcher)\<lparr>NoPrivs := True\<rparr>\<rparr>)
            example_host example_image ''/bundle'' example_ep example_user = Inr p
       \<and> NoNewPrivileges p = True)
   \<and> (\<exists>p. getProcess (example_launcher\<lparr>cfg := (cfg example_launcher)\<lparr>NoPrivs := False\<rparr>\<rparr>)
            example_host example_image ''/bundle'' example_ep example_user = Inr p
       \<and> NoNewPrivileges p = False)"
proof -
  let ?l = "\<lambda>np. example_launcher\<lparr>cfg := (cfg example_launcher)\<lparr>NoPrivs := np\<rparr>\<rparr>"
  obtain p where p: "getProcess (?l True) example_host example_image ''/bundle'' example_ep
                       example_user = Inr p"
    using example_getProcess [of True] by blast
  obtain q where q: "getProcess (?l False) example_host example_image ''/bundle'' example_ep
                       example_user = Inr q"
    using example_getProcess [of False] by blast
  have "NoNewPrivileges p = NoPrivs (cfg (?l True))"
    using getProcess_NoNewPrivileges [of "?l True" example_host example_image "''/bundle''"
        example_ep example_user] p by blast
  moreover have "NoNewPrivileges q = NoPrivs (cfg (?l False))"
    using getProcess_NoNewPrivileges [of "?l False" example_host example_image "''/bundle''"
        example_ep example_user] q by blast
  ultimately show ?thesis using p q by simp
qed

end
